theory Spec2Isabelle
  imports
    Complex_Main
    "HOL-Library.Char_ord"
    "HOL-Library.List_Lexorder"
    "HOL-Library.Product_Lexorder"
begin

section \<open>Data model\<close>

text \<open>
  The program (\<^verbatim>\<open>app.py\<close>) reads local and national CSV extracts into data frames,
  cleans each one, merges the cleaned frames by metric label, joins the per-label frames
  into one wide frame, pivots every metric column and writes the pivots to a workbook.

  A data frame is modelled by the list of its rows, in row order. Numbers are exact
  rationals; a missing cell (NaN, NaT) is \<open>None\<close>. A parsed month is the pair
  (year, month number); pairs and strings are ordered lexicographically, as the library
  orders timestamps and strings when it sorts group keys.

  Scope of the model: the columns that the program selects by name are present (the row
  types have them); the practice code column, when present, holds strings or missing
  cells; the metric label differs from the two key column names
  \<^verbatim>\<open>Commissioner / Provider\<close> and \<^verbatim>\<open>Month\<close>; characters are ASCII.
\<close>

type_synonym timestamp = "nat \<times> nat"

type_synonym key = "string \<times> timestamp"

record local_row =
  lr_practice_code :: "string option"
  lr_commissioner :: "string option"
  lr_month :: string
  lr_numerator :: "rat option"
  lr_denominator :: "rat option"

text \<open>A local frame: whether the column \<^verbatim>\<open>Practice plus Code\<close> exists, and the rows.\<close>

record local_df =
  has_practice_code :: bool
  local_rows :: "local_row list"

record national_row =
  nr_country :: "string option"
  nr_month :: string
  nr_value :: "rat option"

text \<open>A cleaned frame has the three columns organisation, month and the metric.\<close>

record cleaned_row =
  c_org :: "string option"
  c_month :: "timestamp option"
  c_value :: "rat option"

text \<open>The local frame after the first grouping, with its two summed columns.\<close>

record nd_row =
  g_org :: string
  g_month :: timestamp
  g_numerator :: rat
  g_denominator :: rat

section \<open>Library operations used by the cleaning functions\<close>

subsection \<open>\<^verbatim>\<open>pd.to_datetime(..., format='%b-%y', errors='coerce')\<close>\<close>

definition month_abbr :: "string list" where
  "month_abbr = [''jan'', ''feb'', ''mar'', ''apr'', ''may'', ''jun'',
                 ''jul'', ''aug'', ''sep'', ''oct'', ''nov'', ''dec'']"

definition lower_char :: "char \<Rightarrow> char" where
  "lower_char c =
     (case map_of (zip ''ABCDEFGHIJKLMNOPQRSTUVWXYZ'' ''abcdefghijklmnopqrstuvwxyz'') c of
        Some d \<Rightarrow> d
      | None \<Rightarrow> c)"

definition digit_val :: "char \<Rightarrow> nat option" where
  "digit_val c = map_of (zip ''0123456789'' [0, 1, 2, 3, 4, 5, 6, 7, 8, 9]) c"

fun index_of :: "'a \<Rightarrow> 'a list \<Rightarrow> nat option" where
  "index_of x [] = None"
| "index_of x (y # ys) = (if x = y then Some 0 else map_option Suc (index_of x ys))"

text \<open>
  The month name is matched without regard to case, the year has exactly two digits and
  is read with the pivot of \<open>%y\<close> (00..68 are 2000..2068, 69..99 are 1969..1999). Anything
  else is coerced to the null timestamp.
\<close>

definition to_datetime :: "string \<Rightarrow> timestamp option" where
  "to_datetime s =
     (case s of
        [a, b, c, h, y1, y2] \<Rightarrow>
          (if h = CHR ''-'' then
             (case (index_of (map lower_char [a, b, c]) month_abbr, digit_val y1, digit_val y2) of
                (Some i, Some d1, Some d2) \<Rightarrow>
                  (let y = 10 * d1 + d2
                   in Some (if y < 69 then 2000 + y else 1900 + y, Suc i))
              | _ \<Rightarrow> None)
           else None)
      | _ \<Rightarrow> None)"

subsection \<open>The organisation legend and \<^verbatim>\<open>Series.replace\<close>\<close>

definition organisation_legend_mapping :: "(string \<times> string) list" where
  "organisation_legend_mapping =
     [(''NHS NORTH EAST AND NORTH CUMBRIA ICB - 84H'', ''Durham''),
      (''NHS NORTH EAST AND NORTH CUMBRIA ICB - 00P'', ''Sunderland''),
      (''NHS NORTH EAST AND NORTH CUMBRIA ICB - 00L'', ''Northumberland''),
      (''NHS NORTH EAST AND NORTH CUMBRIA ICB - 01H'', ''North Cumbria''),
      (''NHS NORTH EAST AND NORTH CUMBRIA ICB - 13T'', ''Newcastle-Gateshead''),
      (''NHS NORTH EAST AND NORTH CUMBRIA ICB - 16C'', ''Tees Valley''),
      (''NHS NORTH EAST AND NORTH CUMBRIA ICB - 99C'', ''North Tyneside''),
      (''NHS NORTH EAST AND NORTH CUMBRIA ICB - 00N'', ''South Tyneside''),
      (''ENGLAND'', ''England'')]"

definition replace_org :: "string \<Rightarrow> string" where
  "replace_org v = (case map_of organisation_legend_mapping v of Some d \<Rightarrow> d | None \<Rightarrow> v)"

subsection \<open>The regular expression \<^verbatim>\<open>\( ?[CD] ?\d\<close> and \<^verbatim>\<open>str.contains\<close>\<close>

definition is_digit :: "char \<Rightarrow> bool" where
  "is_digit c = (c \<in> set ''0123456789'')"

text \<open>The remainders that an optional space can leave: with and without consuming it.\<close>

fun opt_space :: "string \<Rightarrow> string list" where
  "opt_space [] = [[]]"
| "opt_space (c # cs) = (if c = CHR '' '' then [cs, c # cs] else [c # cs])"

definition match_digit :: "string \<Rightarrow> bool" where
  "match_digit s = (case s of [] \<Rightarrow> False | d # _ \<Rightarrow> is_digit d)"

definition match_CD :: "string \<Rightarrow> bool" where
  "match_CD s =
     (case s of
        [] \<Rightarrow> False
      | c # r \<Rightarrow> (c = CHR ''C'' \<or> c = CHR ''D'') \<and> list_ex match_digit (opt_space r))"

text \<open>The pattern matched at the start of the string.\<close>

definition match_here :: "string \<Rightarrow> bool" where
  "match_here s =
     (case s of
        [] \<Rightarrow> False
      | p # r \<Rightarrow> p = CHR ''('' \<and> list_ex match_CD (opt_space r))"

text \<open>\<^verbatim>\<open>re.search\<close>: the pattern matched at some position of the string.\<close>

fun re_search :: "string \<Rightarrow> bool" where
  "re_search [] = match_here []"
| "re_search (c # cs) = (match_here (c # cs) \<or> re_search cs)"

text \<open>\<^verbatim>\<open>.str.contains(pattern, na=False)\<close> on one cell: a missing cell gives False.\<close>

definition str_contains :: "string option \<Rightarrow> bool" where
  "str_contains v = (case v of None \<Rightarrow> False | Some s \<Rightarrow> re_search s)"

subsection \<open>Grouping\<close>

text \<open>
  \<^verbatim>\<open>groupby\<close> drops the rows with a null key and puts the distinct keys in ascending
  order; \<^verbatim>\<open>sum\<close> skips missing cells, so that a group without values sums to 0.
\<close>

definition group_keys :: "('k::linorder) list \<Rightarrow> 'k list" where
  "group_keys ks = sort (remdups ks)"

definition nansum :: "rat option list \<Rightarrow> rat" where
  "nansum vs = sum_list (map (\<lambda>v. case v of None \<Rightarrow> 0 | Some x \<Rightarrow> x) vs)"

subsection \<open>\<^verbatim>\<open>np.where\<close> and \<^verbatim>\<open>round(2)\<close>\<close>

text \<open>Rounding to the nearest integer, a tie going to the even neighbour.\<close>

definition rint :: "rat \<Rightarrow> int" where
  "rint x =
     (let f = \<lfloor>x\<rfloor>; d = x - of_int f
      in if d < 1 / 2 then f else if 1 / 2 < d then f + 1 else if even f then f else f + 1)"

definition round2 :: "rat \<Rightarrow> rat" where
  "round2 x = of_int (rint (x * 100)) / 100"

section \<open>The cleaning functions\<close>

text \<open>The rows that survive the practice code filter of \<open>clean_local\<close>.\<close>

definition drop_closed :: "local_df \<Rightarrow> local_row list" where
  "drop_closed df =
     (if has_practice_code df
      then filter (\<lambda>r. \<not> str_contains (lr_practice_code r)) (local_rows df)
      else local_rows df)"

text \<open>Month parsed and organisation replaced; the key is null when either part is.\<close>

definition local_key :: "local_row \<Rightarrow> key option" where
  "local_key r =
     (case (map_option replace_org (lr_commissioner r), to_datetime (lr_month r)) of
        (Some org, Some m) \<Rightarrow> Some (org, m)
      | _ \<Rightarrow> None)"

text \<open>\<^verbatim>\<open>df.groupby(['Commissioner / Provider', 'Month'], as_index=False).sum()\<close>\<close>

definition groupby_sum :: "local_row list \<Rightarrow> nd_row list" where
  "groupby_sum rs =
     map (\<lambda>k. \<lparr>g_org = fst k, g_month = snd k,
               g_numerator = nansum (map lr_numerator (filter (\<lambda>r. local_key r = Some k) rs)),
               g_denominator = nansum (map lr_denominator (filter (\<lambda>r. local_key r = Some k) rs))\<rparr>)
         (group_keys (List.map_filter local_key rs))"

text \<open>\<^verbatim>\<open>df.groupby('Month')[['Numerator', 'Denominator']].sum()\<close> with the fixed name.\<close>

definition icb :: "nd_row list \<Rightarrow> nd_row list" where
  "icb df =
     map (\<lambda>m. \<lparr>g_org = ''North East and North Cumbria'', g_month = m,
               g_numerator = sum_list (map g_numerator (filter (\<lambda>r. g_month r = m) df)),
               g_denominator = sum_list (map g_denominator (filter (\<lambda>r. g_month r = m) df))\<rparr>)
         (group_keys (map g_month df))"

text \<open>The frame of \<open>clean_local\<close> after \<^verbatim>\<open>pd.concat([df, icb])\<close>.\<close>

definition local_frame :: "local_df \<Rightarrow> nd_row list" where
  "local_frame df = (let g = groupby_sum (drop_closed df) in g @ icb g)"

definition percentage :: "nd_row \<Rightarrow> rat" where
  "percentage r =
     round2 (if g_denominator r \<noteq> 0 then (g_numerator r / g_denominator r) * 100 else 0)"

text \<open>The label \<open>pct_col\<close> only names the third column of the result.\<close>

definition clean_local :: "local_df \<Rightarrow> string \<Rightarrow> cleaned_row list" where
  "clean_local df pct_col =
     map (\<lambda>r. \<lparr>c_org = Some (g_org r), c_month = Some (g_month r), c_value = Some (percentage r)\<rparr>)
         (local_frame df)"

definition clean_national :: "national_row list \<Rightarrow> string \<Rightarrow> cleaned_row list" where
  "clean_national df pct_col =
     map (\<lambda>r. \<lparr>c_org = map_option replace_org (nr_country r),
               c_month = to_datetime (nr_month r),
               c_value = nr_value r\<rparr>)
         df"

section \<open>Merging the cleaned frames\<close>

text \<open>
  \<open>all_metrics\<close> is a dictionary from label to the list of cleaned frames with that
  label; a dictionary keeps its keys in the order of their first insertion, so it is an
  association list. \<^verbatim>\<open>all_metrics.setdefault(label, []).append(cleaned)\<close>:
\<close>

fun setdefault_append :: "string \<Rightarrow> 'a \<Rightarrow> (string \<times> 'a list) list \<Rightarrow> (string \<times> 'a list) list" where
  "setdefault_append label x [] = [(label, [x])]"
| "setdefault_append label x ((l, xs) # rest) =
     (if l = label then (l, xs @ [x]) # rest else (l, xs) # setdefault_append label x rest)"

text \<open>The two loops that fill \<open>all_metrics\<close>: the local files first, then the national.\<close>

definition all_metrics ::
  "(local_df \<times> string) list \<Rightarrow> (national_row list \<times> string) list
     \<Rightarrow> (string \<times> cleaned_row list list) list" where
  "all_metrics locals nationals =
     foldl (\<lambda>m (df, label). setdefault_append label (clean_national df label) m)
       (foldl (\<lambda>m (df, label). setdefault_append label (clean_local df label) m) [] locals)
       nationals"

definition cleaned_key :: "cleaned_row \<Rightarrow> key option" where
  "cleaned_key r =
     (case (c_org r, c_month r) of
        (Some org, Some m) \<Rightarrow> Some (org, m)
      | _ \<Rightarrow> None)"

text \<open>\<^verbatim>\<open>GroupBy.first\<close>: the first value of the group that is not missing.\<close>

definition first_valid :: "rat option list \<Rightarrow> rat option" where
  "first_valid vs = (case filter (\<lambda>v. v \<noteq> None) vs of [] \<Rightarrow> None | v # _ \<Rightarrow> v)"

definition groupby_first :: "cleaned_row list \<Rightarrow> (key \<times> rat option) list" where
  "groupby_first rs =
     map (\<lambda>k. (k, first_valid (map c_value (filter (\<lambda>r. cleaned_key r = Some k) rs))))
         (group_keys (List.map_filter cleaned_key rs))"

text \<open>
  A frame keyed by (organisation, month) with its metric columns: the names of the
  columns, and for every row the key and one cell per column.
\<close>

record frame =
  columns :: "string list"
  rows :: "(key \<times> rat option list) list"

text \<open>The body of the loop over \<open>all_metrics.items()\<close>: concatenate, group, take first.\<close>

definition merged :: "string \<Rightarrow> cleaned_row list list \<Rightarrow> frame" where
  "merged label df_list =
     \<lparr>columns = [label],
      rows = map (\<lambda>(k, v). (k, [v])) (groupby_first (concat df_list))\<rparr>"

definition merged_dfs :: "(string \<times> cleaned_row list list) list \<Rightarrow> frame list" where
  "merged_dfs metrics = map (\<lambda>(label, df_list). merged label df_list) metrics"

text \<open>
  \<^verbatim>\<open>pd.merge(l, r, on=[...], how='outer')\<close>: for every key of either frame, in ascending
  order, each row of the left frame with that key is paired with each row of the right
  frame with that key; a side without the key contributes one row of empty cells.
\<close>

definition cells_of :: "frame \<Rightarrow> key \<Rightarrow> rat option list list" where
  "cells_of f k =
     (case map snd (filter (\<lambda>r. fst r = k) (rows f)) of
        [] \<Rightarrow> [replicate (length (columns f)) None]
      | c # cs \<Rightarrow> c # cs)"

definition pd_merge :: "frame \<Rightarrow> frame \<Rightarrow> frame" where
  "pd_merge l r =
     \<lparr>columns = columns l @ columns r,
      rows = concat (map (\<lambda>k. concat (map (\<lambda>a. map (\<lambda>b. (k, a @ b)) (cells_of r k)) (cells_of l k)))
                         (group_keys (map fst (rows l) @ map fst (rows r))))\<rparr>"

text \<open>The one message that \<^verbatim>\<open>st.error\<close> shows, before \<^verbatim>\<open>st.stop()\<close> ends the run.\<close>

datatype error = No_valid_datasets

text \<open>
  \<^verbatim>\<open>reduce\<close> without an initial value starts from the first frame; the empty list takes
  the branch that reports the error and stops.
\<close>

definition combined :: "frame list \<Rightarrow> error + frame" where
  "combined dfs =
     (case dfs of
        [] \<Rightarrow> Inl No_valid_datasets
      | d # ds \<Rightarrow> Inr (foldl pd_merge d ds))"

text \<open>\<^verbatim>\<open>combined.sort_values(by=['Month', 'Commissioner / Provider'])\<close>\<close>

definition sort_values :: "frame \<Rightarrow> frame" where
  "sort_values f = f\<lparr>rows := sort_key (\<lambda>r. (snd (fst r), fst (fst r))) (rows f)\<rparr>"

section \<open>Pivoting\<close>

definition cell_at :: "rat option list \<Rightarrow> nat \<Rightarrow> rat option" where
  "cell_at cs j = (if j < length cs then cs ! j else None)"

definition mean :: "rat list \<Rightarrow> rat" where
  "mean vs = sum_list vs / of_nat (length vs)"

text \<open>The values of column \<open>j\<close> that are not missing, in the rows of month \<open>m\<close> and organisation \<open>org\<close>.\<close>

definition group_values :: "(key \<times> rat option list) list \<Rightarrow> nat \<Rightarrow> timestamp \<Rightarrow> string \<Rightarrow> rat list" where
  "group_values rs j m org =
     List.map_filter (\<lambda>r. cell_at (snd r) j) (filter (\<lambda>r. fst r = (org, m)) rs)"

record pivot =
  pv_orgs :: "string list"
  pv_rows :: "(timestamp \<times> rat option list) list"

text \<open>
  \<^verbatim>\<open>pivot_table(index='Month', columns='Commissioner / Provider', values=col)\<close>: the mean of
  every (month, organisation) group, without the groups whose mean is missing; the
  months left are the rows and the organisations left are the columns, both ascending.
\<close>

definition pivot_table :: "(key \<times> rat option list) list \<Rightarrow> nat \<Rightarrow> pivot" where
  "pivot_table rs j =
     (let valid = filter (\<lambda>r. cell_at (snd r) j \<noteq> None) rs;
          orgs = group_keys (map (\<lambda>r. fst (fst r)) valid)
      in \<lparr>pv_orgs = orgs,
          pv_rows = map (\<lambda>m. (m, map (\<lambda>org. case group_values rs j m org of
                                               [] \<Rightarrow> None
                                             | v # vs \<Rightarrow> Some (mean (v # vs))) orgs))
                        (group_keys (map (\<lambda>r. snd (fst r)) valid))\<rparr>)"

text \<open>The loop that builds \<open>pivots\<close>: one pivot per metric column, under the column's name.\<close>

definition pivots :: "frame \<Rightarrow> (string \<times> pivot) list" where
  "pivots f = map (\<lambda>j. (columns f ! j, pivot_table (rows f) j)) [0..<length (columns f)]"

section \<open>Writing the workbook\<close>

definition month_name :: "string list" where
  "month_name = [''Jan'', ''Feb'', ''Mar'', ''Apr'', ''May'', ''Jun'',
                 ''Jul'', ''Aug'', ''Sep'', ''Oct'', ''Nov'', ''Dec'']"

definition digit_char :: "nat \<Rightarrow> char" where
  "digit_char d = ''0123456789'' ! (d mod 10)"

text \<open>\<^verbatim>\<open>strftime('%b-%y')\<close>; the month number of a parsed timestamp is 1..12.\<close>

definition strftime :: "timestamp \<Rightarrow> string" where
  "strftime t =
     (if 1 \<le> snd t \<and> snd t \<le> 12 then month_name ! (snd t - 1) else [])
       @ ''-'' @ [digit_char (fst t div 10), digit_char (fst t)]"

datatype cell = Text string | Number rat | Blank

text \<open>What \<^verbatim>\<open>to_excel(..., index=False)\<close> writes for a pivot: the header, then one row per month.\<close>

definition sheet_cells :: "pivot \<Rightarrow> cell list list" where
  "sheet_cells p =
     (Text ''Month'' # map Text (pv_orgs p))
       # map (\<lambda>(m, vs). Text (strftime m) # map (\<lambda>v. case v of None \<Rightarrow> Blank | Some x \<Rightarrow> Number x) vs)
             (pv_rows p)"

text \<open>A worksheet holds a cell at some positions (row, column).\<close>

type_synonym worksheet = "nat \<times> nat \<Rightarrow> cell option"

definition grid :: "cell list list \<Rightarrow> worksheet" where
  "grid g = (\<lambda>(i, j). if i < length g \<and> j < length (g ! i) then Some (g ! i ! j) else None)"

text \<open>
  The writer is opened for writing, not appending. In that mode \<^verbatim>\<open>to_excel\<close> creates the
  sheet when the workbook has none of that name, and otherwise writes its cells into the
  sheet that exists, from the top left corner.
\<close>

definition to_excel :: "(string \<times> worksheet) list \<Rightarrow> string \<Rightarrow> cell list list \<Rightarrow> (string \<times> worksheet) list" where
  "to_excel book sheet_name g =
     (if sheet_name \<in> fst ` set book
      then map (\<lambda>(n, ws). if n = sheet_name then (n, ws ++ grid g) else (n, ws)) book
      else book @ [(sheet_name, grid g)])"

text \<open>The loop over \<open>pivots.items()\<close>, with \<open>sheet[:31]\<close> as the sheet name.\<close>

definition write_excel :: "(string \<times> pivot) list \<Rightarrow> (string \<times> worksheet) list" where
  "write_excel ps = foldl (\<lambda>book (sheet, df). to_excel book (take 31 sheet) (sheet_cells df)) [] ps"

section \<open>The run\<close>

record uploads =
  local_files :: "local_df list"
  local_labels :: "string list"
  national_files :: "national_row list list"
  national_labels :: "string list"

text \<open>
  A run ends in one of three ways: nothing is processed (the counts of files and labels
  differ), the error is shown and the script stops, or the workbook is offered for
  download.
\<close>

datatype outcome = Skipped | Stopped error | Download "(string \<times> worksheet) list"

definition app :: "uploads \<Rightarrow> outcome" where
  "app u =
     (if length (local_files u) = length (local_labels u)
         \<and> length (national_files u) = length (national_labels u)
      then
        (case combined (merged_dfs (all_metrics (zip (local_files u) (local_labels u))
                                                (zip (national_files u) (national_labels u)))) of
           Inl e \<Rightarrow> Stopped e
         | Inr c \<Rightarrow> Download (write_excel (pivots (sort_values c))))
      else Skipped)"

section \<open>Example inputs\<close>

text \<open>
  A local extract with two practices of one organisation in the same month, a row with
  a zero denominator and no practice code, and a practice marked as closed.
\<close>

definition example_local :: local_df where
  "example_local =
     \<lparr>has_practice_code = True,
      local_rows =
        [\<lparr>lr_practice_code = Some ''SURGERY ONE (A81001)'',
          lr_commissioner = Some ''NHS NORTH EAST AND NORTH CUMBRIA ICB - 84H'',
          lr_month = ''Jan-24'', lr_numerator = Some 1, lr_denominator = Some 8\<rparr>,
         \<lparr>lr_practice_code = Some ''SURGERY TWO (A81002)'',
          lr_commissioner = Some ''NHS NORTH EAST AND NORTH CUMBRIA ICB - 84H'',
          lr_month = ''Jan-24'', lr_numerator = Some 2, lr_denominator = Some 16\<rparr>,
         \<lparr>lr_practice_code = None,
          lr_commissioner = Some ''NHS NORTH EAST AND NORTH CUMBRIA ICB - 00P'',
          lr_month = ''Jan-24'', lr_numerator = Some 5, lr_denominator = Some 0\<rparr>,
         \<lparr>lr_practice_code = Some ''OLD SURGERY ( C1)'',
          lr_commissioner = Some ''NHS NORTH EAST AND NORTH CUMBRIA ICB - 00P'',
          lr_month = ''Jan-24'', lr_numerator = Some 7, lr_denominator = Some 9\<rparr>]\<rparr>"


section \<open>The closed practice segment in the words of the specification\<close>


text \<open>A national extract with one month that does not parse.\<close>

definition example_national :: "national_row list" where
  "example_national =
     [\<lparr>nr_country = Some ''ENGLAND'', nr_month = ''Jan-24'', nr_value = Some (85 / 2)\<rparr>,
      \<lparr>nr_country = Some ''ENGLAND'', nr_month = ''January 2024'', nr_value = Some 43\<rparr>]"

text \<open>A run without any uploaded file.\<close>

definition no_uploads :: uploads where
  "no_uploads = \<lparr>local_files = [], local_labels = [], national_files = [], national_labels = []\<rparr>"



text \<open>Two cleaned frames of one label that share the key (England, January 2024).\<close>

definition example_first :: "cleaned_row list" where
  "example_first =
     [\<lparr>c_org = Some ''England'', c_month = Some (2024, 1), c_value = Some 50\<rparr>,
      \<lparr>c_org = Some ''England'', c_month = Some (2024, 2), c_value = None\<rparr>]"

definition example_second :: "cleaned_row list" where
  "example_second =
     [\<lparr>c_org = Some ''England'', c_month = Some (2024, 1), c_value = Some (85 / 2)\<rparr>,
      \<lparr>c_org = Some ''England'', c_month = Some (2024, 2), c_value = Some 43\<rparr>]"

section \<open>Properties of keyed frames\<close>

text \<open>No two rows of the frame have the same (organisation, month) key.\<close>

definition key_unique :: "frame \<Rightarrow> bool" where
  "key_unique f = distinct (map fst (rows f))"

text \<open>Every row has one cell per column.\<close>

definition rectangular :: "frame \<Rightarrow> bool" where
  "rectangular f = list_all (\<lambda>r. length (snd r) = length (columns f)) (rows f)"

text \<open>The cells of the row with key \<open>k\<close>; empty cells when the frame has no such row.\<close>

definition lookup_row :: "frame \<Rightarrow> key \<Rightarrow> rat option list" where
  "lookup_row f k =
     (case map_of (rows f) k of
        None \<Rightarrow> replicate (length (columns f)) None
      | Some cs \<Rightarrow> cs)"

text \<open>The cleaned frames of a local and a national extract under two different labels.\<close>

definition example_metrics :: "(string \<times> cleaned_row list list) list" where
  "example_metrics =
     [(''Local (%)'', [clean_local example_local ''Local (%)'']),
      (''National (%)'', [clean_national example_national ''National (%)''])]"

text \<open>
  Reading a pivot: the cell in the row of month \<open>m\<close> and the column of organisation
  \<open>org\<close>; no value when the pivot has no such row or no such column.
\<close>

definition pivot_cell :: "pivot \<Rightarrow> timestamp \<Rightarrow> string \<Rightarrow> rat option" where
  "pivot_cell p m org =
     (case map_of (pv_rows p) m of
        None \<Rightarrow> None
      | Some vs \<Rightarrow>
          (case index_of org (pv_orgs p) of
             None \<Rightarrow> None
           | Some i \<Rightarrow> cell_at vs i))"

section \<open>The percentage column of the local normalizer\<close>






section \<open>The regional rollup of the local normalizer\<close>

lemma distinct_group_keys: "distinct (group_keys ks)"
  by (simp add: group_keys_def)

lemma set_group_keys: "set (group_keys ks) = set ks"
  by (simp add: group_keys_def)







section \<open>The practice code filter\<close>












section \<open>The national normalizer\<close>

lemma groupby_first_drop_null:
  "groupby_first (filter (\<lambda>r. cleaned_key r \<noteq> None) rs) = groupby_first rs"
proof -
  have a: "List.map_filter cleaned_key (filter (\<lambda>r. cleaned_key r \<noteq> None) rs) = List.map_filter cleaned_key rs"
    by (induction rs) (simp_all add: List.map_filter_simps del: not_None_eq split: option.split)
  have b: "filter (\<lambda>r. cleaned_key r = Some k) (filter (\<lambda>r. cleaned_key r \<noteq> None) rs)
         = filter (\<lambda>r. cleaned_key r = Some k) rs" for k
    by (induction rs) (simp_all del: not_None_eq)
  show ?thesis by (simp only: groupby_first_def a b)
qed

lemma cleaned_key_None: "cleaned_key r = None \<longleftrightarrow> c_org r = None \<or> c_month r = None"
  by (simp add: cleaned_key_def split: option.split)

text \<open>
  Claim C6. \<open>clean_national\<close> returns one row for every row of its input, in the same
  order: the organisation with the legend applied, the parsed month and the value
  unchanged; nothing is grouped or aggregated. A row whose month does not parse is still
  there, with a null month and hence a null key. Such rows disappear only in the grouping
  of the merge step: the merged frame of a label is the same with and without the rows of
  the national frame that have a null organisation or a null month.
\<close>

theorem clean_national_rows:
  "length (clean_national df pct_col) = length df \<and>
   (\<forall>i < length df.
      clean_national df pct_col ! i =
        \<lparr>c_org = map_option replace_org (nr_country (df ! i)),
         c_month = to_datetime (nr_month (df ! i)),
         c_value = nr_value (df ! i)\<rparr> \<and>
      (to_datetime (nr_month (df ! i)) = None \<longrightarrow>
         c_month (clean_national df pct_col ! i) = None \<and>
         cleaned_key (clean_national df pct_col ! i) = None)) \<and>
   merged pct_col (before @ clean_national df pct_col # after) =
     merged pct_col (before @ filter (\<lambda>r. c_org r \<noteq> None \<and> c_month r \<noteq> None) (clean_national df pct_col) # after)"
proof -
  have a: "length (clean_national df pct_col) = length df"
    by (simp add: clean_national_def)
  have b: "clean_national df pct_col ! i =
        \<lparr>c_org = map_option replace_org (nr_country (df ! i)),
         c_month = to_datetime (nr_month (df ! i)),
         c_value = nr_value (df ! i)\<rparr> \<and>
      (to_datetime (nr_month (df ! i)) = None \<longrightarrow>
         c_month (clean_national df pct_col ! i) = None \<and>
         cleaned_key (clean_national df pct_col ! i) = None)" if "i < length df" for i
    using that by (simp add: clean_national_def cleaned_key_None)
  have p: "(\<lambda>r. c_org r \<noteq> None \<and> c_month r \<noteq> None) = (\<lambda>r. cleaned_key r \<noteq> None)"
    by (rule ext) (simp add: cleaned_key_None)
  have "groupby_first (concat (before @ clean_national df pct_col # after)) =
        groupby_first (filter (\<lambda>r. cleaned_key r \<noteq> None) (concat (before @ clean_national df pct_col # after)))"
    by (simp only: groupby_first_drop_null)
  also have "\<dots> = groupby_first (filter (\<lambda>r. cleaned_key r \<noteq> None)
       (concat (before @ filter (\<lambda>r. cleaned_key r \<noteq> None) (clean_national df pct_col) # after)))"
    by (simp del: not_None_eq)
  also have "\<dots> = groupby_first (concat (before @ filter (\<lambda>r. cleaned_key r \<noteq> None) (clean_national df pct_col) # after))"
    by (simp only: groupby_first_drop_null)
  finally have c: "merged pct_col (before @ clean_national df pct_col # after) =
     merged pct_col (before @ filter (\<lambda>r. c_org r \<noteq> None \<and> c_month r \<noteq> None) (clean_national df pct_col) # after)"
    by (simp only: merged_def p)
  from a b c show ?thesis by blast
qed

lemma example_national_months:
  "to_datetime ''Jan-24'' = Some (2024, 1)"
  "to_datetime ''January 2024'' = None"
  by code_simp+

lemma example_national_merged:
  "merged ''Metric 1 (%)''
     [filter (\<lambda>r. c_org r \<noteq> None \<and> c_month r \<noteq> None)
        [\<lparr>c_org = Some ''England'', c_month = Some (2024, 1), c_value = Some (85 / 2)\<rparr>,
         \<lparr>c_org = Some ''England'', c_month = None, c_value = Some 43\<rparr>]] =
   \<lparr>columns = [''Metric 1 (%)''], rows = [((''England'', (2024, 1)), [Some (85 / 2)])]\<rparr>"
  by code_simp

lemma replace_org_England: "replace_org ''ENGLAND'' = ''England''"
  by code_simp

theorem clean_national_rows_witness:
  "length (clean_national example_national ''Metric 1 (%)'') = 2 \<and>
   clean_national example_national ''Metric 1 (%)'' ! 1 =
     \<lparr>c_org = Some ''England'', c_month = None, c_value = Some 43\<rparr> \<and>
   merged ''Metric 1 (%)'' [clean_national example_national ''Metric 1 (%)''] =
     \<lparr>columns = [''Metric 1 (%)''], rows = [((''England'', (2024, 1)), [Some (85 / 2)])]\<rparr>"
proof -
  note t = clean_national_rows [of example_national "''Metric 1 (%)''" "[]" "[]"]
  have l: "length example_national = 2"
    by (simp add: example_national_def)
  have n0: "clean_national example_national ''Metric 1 (%)'' ! 0 =
     \<lparr>c_org = Some ''England'', c_month = Some (2024, 1), c_value = Some (85 / 2)\<rparr>"
    using t l by (simp add: example_national_def example_national_months replace_org_England)
  have n1: "clean_national example_national ''Metric 1 (%)'' ! 1 =
     \<lparr>c_org = Some ''England'', c_month = None, c_value = Some 43\<rparr>"
    using t l by (simp add: example_national_def example_national_months replace_org_England)
  have e: "clean_national example_national ''Metric 1 (%)'' =
     [\<lparr>c_org = Some ''England'', c_month = Some (2024, 1), c_value = Some (85 / 2)\<rparr>,
      \<lparr>c_org = Some ''England'', c_month = None, c_value = Some 43\<rparr>]"
    using t l n0 n1 by (simp add: list_eq_iff_nth_eq All_less_Suc2 numeral_2_eq_2)
  have m: "merged ''Metric 1 (%)'' [clean_national example_national ''Metric 1 (%)''] =
     \<lparr>columns = [''Metric 1 (%)''], rows = [((''England'', (2024, 1)), [Some (85 / 2)])]\<rparr>"
    using t unfolding e append_Nil example_national_merged by simp
  from t l n1 m show ?thesis by simp
qed

section \<open>A run without data\<close>

lemma setdefault_append_not_Nil: "setdefault_append label x m \<noteq> []"
  by (induction label x m rule: setdefault_append.induct) auto

lemma foldl_setdefault_not_Nil:
  "m \<noteq> [] \<or> xs \<noteq> [] \<Longrightarrow> foldl (\<lambda>m (df, label). setdefault_append label (f df label) m) m xs \<noteq> []"
proof (induction xs arbitrary: m)
  case Nil
  then show ?case by simp
next
  case (Cons x xs)
  obtain df label where x: "x = (df, label)" by (cases x)
  have "setdefault_append label (f df label) m \<noteq> []"
    by (rule setdefault_append_not_Nil)
  then show ?case
    using Cons.IH [of "setdefault_append label (f df label) m"] by (simp add: x)
qed

lemma all_metrics_Nil: "all_metrics locals nationals = [] \<longleftrightarrow> locals = [] \<and> nationals = []"
proof
  assume a: "all_metrics locals nationals = []"
  show "locals = [] \<and> nationals = []"
  proof (rule ccontr)
    assume "\<not> (locals = [] \<and> nationals = [])"
    then consider "nationals \<noteq> []" | "nationals = []" "locals \<noteq> []" by blast
    then have "all_metrics locals nationals \<noteq> []"
    proof cases
      case 1
      then show ?thesis
        unfolding all_metrics_def by (intro foldl_setdefault_not_Nil) simp
    next
      case 2
      then show ?thesis
        unfolding all_metrics_def using foldl_setdefault_not_Nil [of "[]" locals clean_local]
        by simp
    qed
    with a show False by contradiction
  qed
next
  assume "locals = [] \<and> nationals = []"
  then show "all_metrics locals nationals = []"
    by (simp add: all_metrics_def)
qed

lemma combined_Inl: "combined dfs = Inl e \<longleftrightarrow> dfs = [] \<and> e = No_valid_datasets"
  by (cases dfs) (auto simp: combined_def)

text \<open>
  Claim C7. In a run whose label lists are as long as its file lists (the script builds
  one label per file), no file of either kind means that there is no cleaned frame to
  merge: the run ends with the error message and without a workbook. As soon as one file
  of either kind is uploaded the run does not stop there but ends with a workbook.
\<close>

theorem app_stops_without_files:
  assumes "length (local_files u) = length (local_labels u)"
    and "length (national_files u) = length (national_labels u)"
  shows "(local_files u = [] \<and> national_files u = [] \<longrightarrow> app u = Stopped No_valid_datasets) \<and>
         (\<not> (local_files u = [] \<and> national_files u = []) \<longrightarrow> (\<exists>book. app u = Download book))"
proof -
  let ?m = "all_metrics (zip (local_files u) (local_labels u)) (zip (national_files u) (national_labels u))"
  have z: "?m = [] \<longleftrightarrow> local_files u = [] \<and> national_files u = []"
    using assms by (auto simp: all_metrics_Nil)
  show ?thesis
  proof (cases "local_files u = [] \<and> national_files u = []")
    case True
    then have "merged_dfs ?m = []" using z by (simp add: merged_dfs_def)
    then have "combined (merged_dfs ?m) = Inl No_valid_datasets"
      by (simp add: combined_def)
    then show ?thesis using assms True by (simp add: app_def)
  next
    case False
    then have "merged_dfs ?m \<noteq> []" using z by (simp add: merged_dfs_def)
    then obtain c where "combined (merged_dfs ?m) = Inr c"
      by (cases "merged_dfs ?m") (auto simp: combined_def)
    then show ?thesis using assms False by (auto simp: app_def)
  qed
qed

theorem app_stops_without_files_witness:
  "length (local_files no_uploads) = length (local_labels no_uploads) \<and>
   length (national_files no_uploads) = length (national_labels no_uploads) \<and>
   local_files no_uploads = [] \<and> national_files no_uploads = [] \<and>
   app no_uploads = Stopped No_valid_datasets"
  using app_stops_without_files [of no_uploads]
  by (simp add: no_uploads_def)

section \<open>The range of the percentage\<close>

















section \<open>The merge of the frames of one label\<close>

lemma set_map_filter: "set (List.map_filter f xs) = {y. \<exists>x \<in> set xs. f x = Some y}"
  by (induction xs) (auto split: option.splits)


lemma groupby_first_keys:
  "map fst (groupby_first rs) = group_keys (List.map_filter cleaned_key rs)"
  by (simp add: groupby_first_def comp_def)

lemma merged_rows:
  "rows (merged label df_list) =
     map (\<lambda>k. (k, [first_valid (map c_value (filter (\<lambda>r. cleaned_key r = Some k) (concat df_list)))]))
         (group_keys (List.map_filter cleaned_key (concat df_list)))"
  by (simp add: merged_def groupby_first_def comp_def)


lemma distinct_merged_keys: "distinct (map fst (rows (merged label df_list)))"
  unfolding merged_rows by (simp add: comp_def group_keys_def)

lemma merged_lookup:
  "map_of (rows (merged label df_list)) k =
     (if \<exists>r \<in> set (concat df_list). cleaned_key r = Some k
      then Some [first_valid (map c_value (filter (\<lambda>r. cleaned_key r = Some k) (concat df_list)))]
      else None)"
  unfolding merged_rows map_of_map_restrict
  by (auto simp: restrict_map_def set_group_keys set_map_filter)



lemma example_merged_rows:
  "rows (merged ''Metric 1 (%)'' [example_first, example_second]) =
     [((''England'', (2024, 1)), [Some 50]), ((''England'', (2024, 2)), [Some 43])]"
  by code_simp


section \<open>The outer join of the merged frames\<close>

lemma filter_key_distinct:
  "distinct (map fst rs) \<Longrightarrow>
     filter (\<lambda>r. fst r = k) rs = (case map_of rs k of None \<Rightarrow> [] | Some cs \<Rightarrow> [(k, cs)])"
proof (induction rs)
  case Nil
  then show ?case by simp
next
  case (Cons r rs)
  obtain k' cs' where r: "r = (k', cs')" by (cases r)
  show ?case
  proof (cases "k' = k")
    case True
    then have "k \<notin> fst ` set rs" using Cons.prems r by auto
    then have "filter (\<lambda>r. fst r = k) rs = []"
      by (auto simp: filter_empty_conv)
    then show ?thesis using True r by simp
  next
    case False
    then show ?thesis using Cons r by simp
  qed
qed

lemma cells_of_unique:
  "key_unique f \<Longrightarrow> cells_of f k = [lookup_row f k]"
  by (simp add: cells_of_def lookup_row_def key_unique_def filter_key_distinct split: option.split)

lemma pd_merge_rows:
  assumes "key_unique l" and "key_unique r"
  shows "rows (pd_merge l r) =
           map (\<lambda>k. (k, lookup_row l k @ lookup_row r k))
               (group_keys (map fst (rows l) @ map fst (rows r)))"
  by (simp add: pd_merge_def cells_of_unique [OF assms(1)] cells_of_unique [OF assms(2)])

lemma pd_merge_columns: "columns (pd_merge l r) = columns l @ columns r"
  by (simp add: pd_merge_def)

lemma pd_merge_key_unique:
  assumes "key_unique l" and "key_unique r"
  shows "key_unique (pd_merge l r)"
  unfolding key_unique_def pd_merge_rows [OF assms]
  by (simp add: comp_def distinct_group_keys)

lemma pd_merge_keys:
  assumes "key_unique l" and "key_unique r"
  shows "fst ` set (rows (pd_merge l r)) = fst ` set (rows l) \<union> fst ` set (rows r)"
  unfolding pd_merge_rows [OF assms]
  by (simp add: image_image set_group_keys)

lemma pd_merge_lookup:
  assumes "key_unique l" and "key_unique r"
  shows "map_of (rows (pd_merge l r)) k =
           (if k \<in> fst ` set (rows l) \<union> fst ` set (rows r)
            then Some (lookup_row l k @ lookup_row r k) else None)"
  unfolding pd_merge_rows [OF assms] map_of_map_restrict
  by (simp add: restrict_map_def set_group_keys)

lemma lookup_row_absent:
  "k \<notin> fst ` set (rows f) \<Longrightarrow> lookup_row f k = replicate (length (columns f)) None"
proof -
  assume "k \<notin> fst ` set (rows f)"
  then have "map_of (rows f) k = None" by (simp add: map_of_eq_None_iff)
  then show ?thesis by (simp add: lookup_row_def)
qed

lemma pd_merge_lookup_row:
  assumes "key_unique l" and "key_unique r"
  shows "lookup_row (pd_merge l r) k = lookup_row l k @ lookup_row r k"
proof (cases "k \<in> fst ` set (rows l) \<union> fst ` set (rows r)")
  case True
  then show ?thesis
    by (simp add: lookup_row_def [of "pd_merge l r"] pd_merge_lookup [OF assms])
next
  case False
  then have "lookup_row l k = replicate (length (columns l)) None"
    "lookup_row r k = replicate (length (columns r)) None"
    by (simp_all add: lookup_row_absent)
  then show ?thesis using False
    by (simp add: lookup_row_def [of "pd_merge l r"] pd_merge_lookup [OF assms]
        pd_merge_columns replicate_add)
qed

lemma lookup_row_length:
  "rectangular f \<Longrightarrow> length (lookup_row f k) = length (columns f)"
  by (auto simp: rectangular_def lookup_row_def list_all_iff split: option.split dest!: map_of_SomeD)

lemma pd_merge_rectangular:
  assumes "key_unique l" and "key_unique r" and "rectangular l" and "rectangular r"
  shows "rectangular (pd_merge l r)"
  unfolding rectangular_def pd_merge_rows [OF assms(1,2)] pd_merge_columns
  by (simp add: list_all_iff lookup_row_length assms(3,4))

lemma foldl_pd_merge:
  assumes "key_unique d" and "rectangular d"
    and "list_all key_unique ds" and "list_all rectangular ds"
  shows "key_unique (foldl pd_merge d ds) \<and> rectangular (foldl pd_merge d ds) \<and>
         columns (foldl pd_merge d ds) = concat (map columns (d # ds)) \<and>
         fst ` set (rows (foldl pd_merge d ds)) = (\<Union>f \<in> set (d # ds). fst ` set (rows f)) \<and>
         (\<forall>k. lookup_row (foldl pd_merge d ds) k = concat (map (\<lambda>f. lookup_row f k) (d # ds)))"
  using assms
proof (induction ds arbitrary: d)
  case Nil
  then show ?case by simp
next
  case (Cons e es)
  have u: "key_unique (pd_merge d e)"
    using Cons.prems by (simp add: pd_merge_key_unique)
  have r: "rectangular (pd_merge d e)"
    using Cons.prems by (simp add: pd_merge_rectangular)
  have ue: "key_unique e" "key_unique d" using Cons.prems by simp_all
  note ih = Cons.IH [OF u r]
  have ih': "key_unique (foldl pd_merge (pd_merge d e) es) \<and> rectangular (foldl pd_merge (pd_merge d e) es) \<and>
         columns (foldl pd_merge (pd_merge d e) es) = concat (map columns (pd_merge d e # es)) \<and>
         fst ` set (rows (foldl pd_merge (pd_merge d e) es)) = (\<Union>f \<in> set (pd_merge d e # es). fst ` set (rows f)) \<and>
         (\<forall>k. lookup_row (foldl pd_merge (pd_merge d e) es) k = concat (map (\<lambda>f. lookup_row f k) (pd_merge d e # es)))"
    using ih Cons.prems by simp
  show ?case
    using ih' by (simp add: pd_merge_columns pd_merge_keys [OF ue(2) ue(1)]
        pd_merge_lookup_row [OF ue(2) ue(1)] Un_assoc)
qed


lemma merged_key_unique: "key_unique (merged label df_list)"
  unfolding key_unique_def by (rule distinct_merged_keys)

lemma merged_rectangular: "rectangular (merged label df_list)"
  by (simp add: rectangular_def merged_rows list_all_iff) (simp add: merged_def)

lemma merged_columns: "columns (merged label df_list) = [label]"
  by (simp add: merged_def)

lemma merged_lookup_row:
  "lookup_row (merged label df_list) k =
     [case map_of (rows (merged label df_list)) k of None \<Rightarrow> None | Some vs \<Rightarrow> cell_at vs 0]"
  by (simp add: lookup_row_def merged_columns merged_lookup cell_at_def)

lemma merged_dfs_all:
  "list_all key_unique (merged_dfs metrics)" "list_all rectangular (merged_dfs metrics)"
  by (simp_all add: merged_dfs_def list_all_iff merged_key_unique merged_rectangular split_beta)

lemma merged_dfs_columns: "concat (map columns (merged_dfs metrics)) = map fst metrics"
  by (induction metrics) (simp_all add: merged_dfs_def merged_columns split_beta)

lemma merged_dfs_lookup_row:
  "concat (map (\<lambda>f. lookup_row f k) (merged_dfs metrics)) =
     map (\<lambda>f. case map_of (rows f) k of None \<Rightarrow> None | Some vs \<Rightarrow> cell_at vs 0) (merged_dfs metrics)"
  by (induction metrics) (simp_all add: merged_dfs_def merged_lookup_row split_beta)

lemma lookup_row_present:
  "key_unique f \<Longrightarrow> (k, cs) \<in> set (rows f) \<Longrightarrow> lookup_row f k = cs"
  by (simp add: lookup_row_def key_unique_def)

lemma combined_merged_dfs:
  assumes "merged_dfs metrics = d # ds"
  shows "combined (merged_dfs metrics) = Inr (foldl pd_merge d ds) \<and>
         key_unique (foldl pd_merge d ds) \<and>
         columns (foldl pd_merge d ds) = map fst metrics \<and>
         fst ` set (rows (foldl pd_merge d ds)) = (\<Union>f \<in> set (merged_dfs metrics). fst ` set (rows f)) \<and>
         (\<forall>k. lookup_row (foldl pd_merge d ds) k =
              map (\<lambda>f. case map_of (rows f) k of None \<Rightarrow> None | Some vs \<Rightarrow> cell_at vs 0)
                  (merged_dfs metrics))"
proof -
  have a: "key_unique d" "rectangular d" "list_all key_unique ds" "list_all rectangular ds"
    using merged_dfs_all [of metrics] assms by simp_all
  note f = foldl_pd_merge [OF a]
  have c: "concat (map columns (d # ds)) = map fst metrics"
    using merged_dfs_columns [of metrics] assms by simp
  have l: "concat (map (\<lambda>f. lookup_row f k) (d # ds)) =
     map (\<lambda>f. case map_of (rows f) k of None \<Rightarrow> None | Some vs \<Rightarrow> cell_at vs 0) (merged_dfs metrics)" for k
    using merged_dfs_lookup_row [of k metrics] assms by simp
  show ?thesis
    using f c l assms by (simp add: combined_def)
qed

text \<open>
  Claim C4. For every non-empty list of labels with their cleaned frames, joining the
  merged frames of the labels pairwise, in order, does not fail: \<open>combined\<close> returns a
  frame. That frame has one column per label, in the order of the labels; the keys of its
  rows are exactly the keys that occur in some merged frame; and in a row with key \<open>k\<close>
  the cell of a label is the value that the merged frame of the label has for \<open>k\<close>, and
  it is empty when that frame has no row with key \<open>k\<close>.
\<close>

theorem combined_outer_join:
  assumes "metrics \<noteq> []"
  shows "\<exists>c. combined (merged_dfs metrics) = Inr c \<and>
           columns c = map fst metrics \<and>
           fst ` set (rows c) = (\<Union>f \<in> set (merged_dfs metrics). fst ` set (rows f)) \<and>
           (\<forall>k cs. (k, cs) \<in> set (rows c) \<longrightarrow>
              cs = map (\<lambda>f. case map_of (rows f) k of None \<Rightarrow> None | Some vs \<Rightarrow> cell_at vs 0)
                       (merged_dfs metrics))"
proof -
  obtain d ds where m: "merged_dfs metrics = d # ds"
    using assms by (cases "merged_dfs metrics") (simp_all add: merged_dfs_def)
  note c = combined_merged_dfs [OF m]
  have "cs = map (\<lambda>f. case map_of (rows f) k of None \<Rightarrow> None | Some vs \<Rightarrow> cell_at vs 0)
                 (merged_dfs metrics)"
    if "(k, cs) \<in> set (rows (foldl pd_merge d ds))" for k cs
  proof -
    have "lookup_row (foldl pd_merge d ds) k = cs"
      using c that by (simp add: lookup_row_present)
    then show ?thesis using c by simp
  qed
  then show ?thesis using c by blast
qed

lemma example_merged_dfs:
  "merged_dfs example_metrics =
     [\<lparr>columns = [''Local (%)''],
       rows = [((''Durham'', (2024, 1)), [Some (25 / 2)]),
               ((''North East and North Cumbria'', (2024, 1)), [Some (3333 / 100)]),
               ((''Sunderland'', (2024, 1)), [Some 0])]\<rparr>,
      \<lparr>columns = [''National (%)''],
       rows = [((''England'', (2024, 1)), [Some (85 / 2)])]\<rparr>]"
  by code_simp

theorem combined_outer_join_witness:
  "example_metrics \<noteq> [] \<and>
   (\<exists>c. combined (merged_dfs example_metrics) = Inr c \<and>
        columns c = [''Local (%)'', ''National (%)''] \<and>
        ((''Durham'', (2024, 1)), [Some (25 / 2), None]) \<in> set (rows c) \<and>
        ((''England'', (2024, 1)), [None, Some (85 / 2)]) \<in> set (rows c))"
proof -
  have ne: "example_metrics \<noteq> []"
    by (simp add: example_metrics_def)
  from combined_outer_join [OF ne] obtain c where
    c: "combined (merged_dfs example_metrics) = Inr c"
      "columns c = map fst example_metrics"
      "fst ` set (rows c) = (\<Union>f \<in> set (merged_dfs example_metrics). fst ` set (rows f))"
      "\<And>k cs. (k, cs) \<in> set (rows c) \<Longrightarrow>
         cs = map (\<lambda>f. case map_of (rows f) k of None \<Rightarrow> None | Some vs \<Rightarrow> cell_at vs 0)
                  (merged_dfs example_metrics)"
    by blast
  have cols: "columns c = [''Local (%)'', ''National (%)'']"
    using c(2) by (simp add: example_metrics_def)
  have "(''Durham'', (2024, 1)) \<in> fst ` set (rows c)"
    unfolding c(3) example_merged_dfs by simp
  then obtain cs1 where r1: "((''Durham'', (2024, 1)), cs1) \<in> set (rows c)"
    by auto
  have "cs1 = [Some (25 / 2), None]"
    using c(4) [OF r1] unfolding example_merged_dfs by (simp add: cell_at_def)
  with r1 have d: "((''Durham'', (2024, 1)), [Some (25 / 2), None]) \<in> set (rows c)"
    by simp
  have "(''England'', (2024, 1)) \<in> fst ` set (rows c)"
    unfolding c(3) example_merged_dfs by simp
  then obtain cs2 where r2: "((''England'', (2024, 1)), cs2) \<in> set (rows c)"
    by auto
  have "cs2 = [None, Some (85 / 2)]"
    using c(4) [OF r2] unfolding example_merged_dfs by (simp add: cell_at_def)
  with r2 have e: "((''England'', (2024, 1)), [None, Some (85 / 2)]) \<in> set (rows c)"
    by simp
  from ne c(1) cols d e show ?thesis by blast
qed

section \<open>Key uniqueness up to the pivot\<close>

lemma index_of_None: "index_of x xs = None \<longleftrightarrow> x \<notin> set xs"
  by (induction xs) auto

lemma index_of_Some: "index_of x xs = Some i \<Longrightarrow> i < length xs \<and> xs ! i = x"
  by (induction xs arbitrary: i) (auto split: if_splits)

lemma mean_single: "mean [x] = x"
  by (simp add: mean_def)

lemma group_values_unique:
  assumes "distinct (map fst rs)"
  shows "group_values rs j m org =
           (case (case map_of rs (org, m) of None \<Rightarrow> None | Some cs \<Rightarrow> cell_at cs j) of
              None \<Rightarrow> []
            | Some x \<Rightarrow> [x])"
  by (simp add: group_values_def filter_key_distinct [OF assms] split: option.split)

lemma map_of_keyed:
  "map_of (map (\<lambda>k. (k, g k)) ks) k = (if k \<in> set ks then Some (g k) else None)"
  by (induction ks) auto

lemma cell_at_map_index:
  assumes "index_of x xs = Some i"
  shows "cell_at (map g xs) i = g x"
proof -
  have "i < length xs \<and> xs ! i = x" using assms by (rule index_of_Some)
  then show ?thesis by (simp add: cell_at_def)
qed

lemma index_cell:
  "(case index_of x xs of None \<Rightarrow> None | Some i \<Rightarrow> cell_at (map g xs) i) =
     (if x \<in> set xs then g x else None)"
proof (cases "index_of x xs")
  case None
  then have "x \<notin> set xs" by (simp add: index_of_None)
  then show ?thesis using None by simp
next
  case (Some i)
  then have "index_of x xs \<noteq> None" by simp
  then have "x \<in> set xs" by (simp add: index_of_None)
  then show ?thesis using Some by (simp add: cell_at_map_index [OF Some])
qed

lemma pivot_table_fields:
  "pv_orgs (pivot_table rs j) =
     group_keys (map (\<lambda>r. fst (fst r)) (filter (\<lambda>r. cell_at (snd r) j \<noteq> None) rs))"
  "pv_rows (pivot_table rs j) =
     map (\<lambda>m. (m, map (\<lambda>org. case group_values rs j m org of
                                  [] \<Rightarrow> None
                                | v # vs \<Rightarrow> Some (mean (v # vs)))
                      (group_keys (map (\<lambda>r. fst (fst r)) (filter (\<lambda>r. cell_at (snd r) j \<noteq> None) rs)))))
         (group_keys (map (\<lambda>r. snd (fst r)) (filter (\<lambda>r. cell_at (snd r) j \<noteq> None) rs)))"
  unfolding pivot_table_def Let_def by (simp_all only: pivot.simps)

lemma pivot_table_lookup:
  "pivot_cell (pivot_table rs j) m org =
     (if m \<in> (\<lambda>r. snd (fst r)) ` set (filter (\<lambda>r. cell_at (snd r) j \<noteq> None) rs)
         \<and> org \<in> (\<lambda>r. fst (fst r)) ` set (filter (\<lambda>r. cell_at (snd r) j \<noteq> None) rs)
      then (case group_values rs j m org of [] \<Rightarrow> None | v # vs \<Rightarrow> Some (mean (v # vs)))
      else None)"
proof -
  define valid where "valid = filter (\<lambda>r. cell_at (snd r) j \<noteq> None) rs"
  define orgs where "orgs = group_keys (map (\<lambda>r. fst (fst r)) valid)"
  define months where "months = group_keys (map (\<lambda>r. snd (fst r)) valid)"
  define g where "g = (\<lambda>m org. case group_values rs j m org of [] \<Rightarrow> None | v # vs \<Rightarrow> Some (mean (v # vs)))"
  have po: "pv_orgs (pivot_table rs j) = orgs"
    unfolding pivot_table_fields orgs_def valid_def ..
  have pr: "pv_rows (pivot_table rs j) = map (\<lambda>m. (m, map (g m) orgs)) months"
    unfolding pivot_table_fields orgs_def months_def valid_def g_def ..
  have so: "set orgs = (\<lambda>r. fst (fst r)) ` set valid"
    unfolding orgs_def by (simp only: set_group_keys set_map)
  have sm: "set months = (\<lambda>r. snd (fst r)) ` set valid"
    unfolding months_def by (simp only: set_group_keys set_map)
  have "pivot_cell (pivot_table rs j) m org =
          (if m \<in> set months then (if org \<in> set orgs then g m org else None) else None)"
    unfolding pivot_cell_def po pr map_of_keyed by (simp add: index_cell)
  also have "\<dots> = (if m \<in> set months \<and> org \<in> set orgs then g m org else None)"
    by simp
  finally show ?thesis
    unfolding so sm valid_def g_def .
qed

lemma pivot_cell_unique:
  assumes "distinct (map fst rs)"
  shows "pivot_cell (pivot_table rs j) m org =
           (case map_of rs (org, m) of None \<Rightarrow> None | Some cs \<Rightarrow> cell_at cs j)"
proof (cases "case map_of rs (org, m) of None \<Rightarrow> None | Some cs \<Rightarrow> cell_at cs j")
  case None
  then have "group_values rs j m org = []"
    by (simp add: group_values_unique [OF assms])
  then show ?thesis
    unfolding pivot_table_lookup using None by simp
next
  case (Some x)
  then obtain cs where cs: "map_of rs (org, m) = Some cs" "cell_at cs j = Some x"
    by (auto split: option.splits)
  then have "((org, m), cs) \<in> set (filter (\<lambda>r. cell_at (snd r) j \<noteq> None) rs)"
    by (auto dest: map_of_SomeD)
  then have "m \<in> (\<lambda>r. snd (fst r)) ` set (filter (\<lambda>r. cell_at (snd r) j \<noteq> None) rs)"
    "org \<in> (\<lambda>r. fst (fst r)) ` set (filter (\<lambda>r. cell_at (snd r) j \<noteq> None) rs)"
    by force+
  moreover have "group_values rs j m org = [x]"
    using Some by (simp add: group_values_unique [OF assms])
  ultimately show ?thesis
    unfolding pivot_table_lookup using Some by (simp add: mean_single del: not_None_eq)
qed

lemma sort_values_keys:
  "key_unique f \<Longrightarrow> key_unique (sort_values f)"
  "key_unique f \<Longrightarrow> map_of (rows (sort_values f)) = map_of (rows f)"
proof -
  assume u: "key_unique f"
  have s: "set (rows (sort_values f)) = set (rows f)"
    by (simp add: sort_values_def)
  have d: "distinct (map fst (rows (sort_values f)))"
    using u unfolding key_unique_def sort_values_def
    by (simp add: distinct_map)
  show "key_unique (sort_values f)" using d by (simp add: key_unique_def)
  show "map_of (rows (sort_values f)) = map_of (rows f)"
    using d u s unfolding key_unique_def by (simp add: map_of_inject_set)
qed


lemma combined_Inr:
  assumes "combined dfs = Inr c"
  obtains d ds where "dfs = d # ds" and "c = foldl pd_merge d ds"
  using assms by (cases dfs) (auto simp: combined_def)

lemma joined_cell:
  assumes u: "key_unique c"
    and keys: "fst ` set (rows c) = (\<Union>f \<in> set dfs. fst ` set (rows f))"
    and look: "lookup_row c k = map (\<lambda>f. case map_of (rows f) k of None \<Rightarrow> None | Some vs \<Rightarrow> cell_at vs 0) dfs"
    and j: "j < length dfs"
  shows "(case map_of (rows c) k of None \<Rightarrow> None | Some cs \<Rightarrow> cell_at cs j) =
         (case map_of (rows (dfs ! j)) k of None \<Rightarrow> None | Some vs \<Rightarrow> cell_at vs 0)"
proof (cases "map_of (rows c) k")
  case None
  then have "k \<notin> fst ` set (rows c)" by (simp add: map_of_eq_None_iff)
  then have "k \<notin> fst ` set (rows (dfs ! j))"
    unfolding keys using j nth_mem by blast
  then have "map_of (rows (dfs ! j)) k = None" by (simp add: map_of_eq_None_iff)
  then show ?thesis using None by simp
next
  case (Some cs)
  then have "lookup_row c k = cs" by (simp add: lookup_row_def)
  then have "cs = map (\<lambda>f. case map_of (rows f) k of None \<Rightarrow> None | Some vs \<Rightarrow> cell_at vs 0) dfs"
    using look by simp
  then have "cell_at cs j = (case map_of (rows (dfs ! j)) k of None \<Rightarrow> None | Some vs \<Rightarrow> cell_at vs 0)"
    using j by (simp add: cell_at_def [of _ j])
  then show ?thesis using Some by simp
qed

lemma pivots_nth:
  "j < length (columns f) \<Longrightarrow> pivots f ! j = (columns f ! j, pivot_table (rows f) j)"
  by (simp add: pivots_def)

lemma sort_values_columns: "columns (sort_values f) = columns f"
  by (simp add: sort_values_def)

lemma group_values_length:
  "distinct (map fst rs) \<Longrightarrow> length (group_values rs j m org) \<le> 1"
  by (simp add: group_values_unique split: option.split)

text \<open>
  Claim C10. Whenever the join returns a frame \<open>c\<close>, every frame on the way to the pivot
  has at most one row per (organisation, month) key: each merged frame of a label, the
  joined frame \<open>c\<close>, and \<open>c\<close> after sorting. So for every metric column \<open>j\<close> each
  (month, organisation) group of the pivot holds at most one value, the mean is taken of a
  single value, and the cell of the pivot for a month and an organisation is the value
  that the merged frame of that label has for the key, unchanged; the cell is empty where
  the merged frame has no value.
\<close>

theorem pivot_reproduces_values:
  assumes "combined (merged_dfs metrics) = Inr c" and "j < length metrics"
  shows "list_all key_unique (merged_dfs metrics) \<and> key_unique c \<and> key_unique (sort_values c) \<and>
         pivots (sort_values c) ! j = (fst (metrics ! j), pivot_table (rows (sort_values c)) j) \<and>
         (\<forall>m org.
            length (group_values (rows (sort_values c)) j m org) \<le> 1 \<and>
            pivot_cell (pivot_table (rows (sort_values c)) j) m org =
              (case map_of (rows (merged_dfs metrics ! j)) (org, m) of
                 None \<Rightarrow> None
               | Some vs \<Rightarrow> cell_at vs 0))"
proof -
  from assms(1) obtain d ds where m: "merged_dfs metrics = d # ds" and c: "c = foldl pd_merge d ds"
    by (rule combined_Inr)
  note cm = combined_merged_dfs [OF m, folded c]
  have u: "key_unique c" using cm by simp
  have us: "key_unique (sort_values c)" using u by (rule sort_values_keys(1))
  have ds: "distinct (map fst (rows (sort_values c)))" using us by (simp add: key_unique_def)
  have len: "length (merged_dfs metrics) = length metrics"
    by (simp add: merged_dfs_def)
  have cols: "columns (sort_values c) = map fst metrics"
    using cm by (simp add: sort_values_columns)
  have pv: "pivots (sort_values c) ! j = (fst (metrics ! j), pivot_table (rows (sort_values c)) j)"
    using assms(2) by (simp add: pivots_nth cols)
  have cell: "pivot_cell (pivot_table (rows (sort_values c)) j) m org =
              (case map_of (rows (merged_dfs metrics ! j)) (org, m) of
                 None \<Rightarrow> None
               | Some vs \<Rightarrow> cell_at vs 0)" for m org
  proof -
    have "pivot_cell (pivot_table (rows (sort_values c)) j) m org =
          (case map_of (rows (sort_values c)) (org, m) of None \<Rightarrow> None | Some cs \<Rightarrow> cell_at cs j)"
      using ds by (rule pivot_cell_unique)
    also have "\<dots> = (case map_of (rows c) (org, m) of None \<Rightarrow> None | Some cs \<Rightarrow> cell_at cs j)"
      by (simp only: sort_values_keys(2) [OF u])
    also have "\<dots> = (case map_of (rows (merged_dfs metrics ! j)) (org, m) of
                 None \<Rightarrow> None
               | Some vs \<Rightarrow> cell_at vs 0)"
    proof (rule joined_cell [OF u])
      show "fst ` set (rows c) = (\<Union>f \<in> set (merged_dfs metrics). fst ` set (rows f))"
        using cm by simp
      show "lookup_row c (org, m) =
          map (\<lambda>f. case map_of (rows f) (org, m) of None \<Rightarrow> None | Some vs \<Rightarrow> cell_at vs 0)
              (merged_dfs metrics)"
        using cm by blast
      show "j < length (merged_dfs metrics)"
        using assms(2) len by simp
    qed
    finally show ?thesis .
  qed
  have gl: "length (group_values (rows (sort_values c)) j m org) \<le> 1" for m org
    using ds by (rule group_values_length)
  show ?thesis
    using merged_dfs_all(1) [of metrics] u us pv cell gl by blast
qed


theorem pivot_reproduces_values_witness:
  "\<exists>c. combined (merged_dfs example_metrics) = Inr c \<and>
       0 < length example_metrics \<and>
       key_unique (sort_values c) \<and>
       fst (pivots (sort_values c) ! 0) = ''Local (%)'' \<and>
       pivot_cell (pivot_table (rows (sort_values c)) 0) (2024, 1) ''Durham'' = Some (25 / 2) \<and>
       pivot_cell (pivot_table (rows (sort_values c)) 0) (2024, 1) ''England'' = None"
proof -
  obtain d ds where m: "merged_dfs example_metrics = d # ds"
    unfolding example_merged_dfs by blast
  have c: "combined (merged_dfs example_metrics) = Inr (foldl pd_merge d ds)"
    unfolding m by (simp add: combined_def)
  have j: "0 < length example_metrics"
    by (simp add: example_metrics_def)
  note t = pivot_reproduces_values [OF c j]
  have l: "fst (example_metrics ! 0) = ''Local (%)''"
    by (simp add: example_metrics_def)
  have v1: "(case map_of (rows (merged_dfs example_metrics ! 0)) (''Durham'', (2024, 1)) of
               None \<Rightarrow> None | Some vs \<Rightarrow> cell_at vs 0) = Some (25 / 2)"
    unfolding example_merged_dfs by (simp add: cell_at_def)
  have v2: "(case map_of (rows (merged_dfs example_metrics ! 0)) (''England'', (2024, 1)) of
               None \<Rightarrow> None | Some vs \<Rightarrow> cell_at vs 0) = None"
    unfolding example_merged_dfs by (simp add: cell_at_def)
  have k: "key_unique (sort_values (foldl pd_merge d ds))"
    using t by blast
  have p: "fst (pivots (sort_values (foldl pd_merge d ds)) ! 0) = ''Local (%)''"
    using t l by simp
  have c1: "pivot_cell (pivot_table (rows (sort_values (foldl pd_merge d ds))) 0) (2024, 1) ''Durham'' = Some (25 / 2)"
    using t v1 by metis
  have c2: "pivot_cell (pivot_table (rows (sort_values (foldl pd_merge d ds))) 0) (2024, 1) ''England'' = None"
    using t v2 by metis
  from c j k p c1 c2 show ?thesis by blast
qed

end
